theory Spec2Isabelle
  imports Main "HOL-Library.Sublist"
begin

section \<open>SimpleNAT: the NAT store of \<^verbatim>\<open>simple_nat.cpp\<close>\<close>

text \<open>
  The class \<^verbatim>\<open>NATStore\<close> holds one \<^verbatim>\<open>unordered_map<string,string>\<close> and offers
  \<^verbatim>\<open>save\<close> (the spec's DefineRule) and \<^verbatim>\<open>translate\<close> (the spec's Translate).
  Strings are \<^typ>\<open>string\<close>, the dictionary is a map, and every way in which a member
  function can fail to return is a value of \<open>fault\<close>:
  \<^item> \<^verbatim>\<open>std::stoi\<close> throws \<^verbatim>\<open>std::invalid_argument\<close> when no digit can be converted and
    \<^verbatim>\<open>std::out_of_range\<close> when the value does not fit \<^verbatim>\<open>int\<close> (taken as 32 bits); the
    file has no \<^verbatim>\<open>try\<close> block, so either one ends the process through \<^verbatim>\<open>std::terminate\<close>;
  \<^item> \<^verbatim>\<open>vector::operator[]\<close> past the end is undefined behaviour;
  \<^item> the loop of \<^verbatim>\<open>parse\<close> never exits for an empty delimiter.
\<close>

subsection \<open>Outcomes\<close>

datatype Status = INVALID | OK | NO_MATCH

datatype fault = Invalid_Argument | Out_Of_Range | Undefined_Behaviour | Never_Returns

type_synonym 'a result = "fault + 'a"

text \<open>Sequencing: a fault in the first computation is the fault of the whole.\<close>

fun and_then :: "'a result \<Rightarrow> ('a \<Rightarrow> 'b result) \<Rightarrow> 'b result" where
  "and_then (Inl f) k = Inl f"
| "and_then (Inr x) k = k x"

text \<open>\<^verbatim>\<open>v[i]\<close> on a \<^verbatim>\<open>vector\<close>.\<close>

definition at :: "'a list \<Rightarrow> nat \<Rightarrow> 'a result" where
  "at xs i = (if i < length xs then Inr (xs ! i) else Inl Undefined_Behaviour)"

subsection \<open>The standard library functions the code calls\<close>

text \<open>\<^verbatim>\<open>s.find(d)\<close>: the lowest position at which \<open>d\<close> occurs in \<open>s\<close>; \<open>None\<close> is \<^verbatim>\<open>npos\<close>.\<close>

fun find_str :: "string \<Rightarrow> string \<Rightarrow> nat option" where
  "find_str [] d = (if d = [] then Some 0 else None)"
| "find_str (c # cs) d =
     (if prefix d (c # cs) then Some 0 else map_option Suc (find_str cs d))"

text \<open>\<^verbatim>\<open>s.find_first_not_of(cs)\<close>: the position of the first character of \<open>s\<close> that is
  not one of \<open>cs\<close>.\<close>

fun find_first_not_of :: "string \<Rightarrow> string \<Rightarrow> nat option" where
  "find_first_not_of [] cs = None"
| "find_first_not_of (c # s) cs =
     (if c \<in> set cs then map_option Suc (find_first_not_of s cs) else Some 0)"

text \<open>
  \<^verbatim>\<open>std::stoi(s)\<close> is \<^verbatim>\<open>strtol(s, &end, 10)\<close>: leading white space is skipped, one sign is
  read, then the longest run of decimal digits. No digit at all: \<^verbatim>\<open>invalid_argument\<close>.
  A value outside \<^verbatim>\<open>int\<close>: \<^verbatim>\<open>out_of_range\<close>.
\<close>

definition isspace :: "char \<Rightarrow> bool" where
  "isspace c \<longleftrightarrow> c \<in> set [CHR '' '', CHR 0x09, CHR 0x0A, CHR 0x0B, CHR 0x0C, CHR 0x0D]"

definition isdigit :: "char \<Rightarrow> bool" where
  "isdigit c \<longleftrightarrow> c \<in> set ''0123456789''"

definition digit_value :: "char \<Rightarrow> nat" where
  "digit_value c = of_char c - 48"

definition decimal_value :: "string \<Rightarrow> nat" where
  "decimal_value ds = foldl (\<lambda>n c. 10 * n + digit_value c) 0 ds"

definition INT_MAX :: int where
  "INT_MAX = 2147483647"

definition INT_MIN :: int where
  "INT_MIN = - 2147483648"

definition stoi :: "string \<Rightarrow> int result" where
  "stoi s =
     (let s1 = dropWhile isspace s;
          negative = (s1 \<noteq> [] \<and> hd s1 = CHR ''-'');
          s2 = (if s1 \<noteq> [] \<and> (hd s1 = CHR ''-'' \<or> hd s1 = CHR ''+'') then tl s1 else s1);
          ds = takeWhile isdigit s2;
          v = (if negative then - int (decimal_value ds) else int (decimal_value ds))
      in if ds = [] then Inl Invalid_Argument
         else if v < INT_MIN \<or> INT_MAX < v then Inl Out_Of_Range
         else Inr v)"

subsection \<open>\<^verbatim>\<open>NATStore::parse\<close>\<close>

text \<open>
  The \<^verbatim>\<open>while\<close> loop: as long as the delimiter occurs, the text before it is pushed and
  erased together with the delimiter; the rest is pushed last. With an empty delimiter
  \<^verbatim>\<open>find\<close> answers 0 for ever and nothing is erased.
\<close>

function parse_loop :: "string \<Rightarrow> string \<Rightarrow> string list \<Rightarrow> string list result" where
  "parse_loop entry delimiter parsed =
     (if delimiter = [] then Inl Never_Returns
      else (case find_str entry delimiter of
              None \<Rightarrow> Inr (parsed @ [entry])
            | Some i \<Rightarrow>
                parse_loop (drop (i + length delimiter) entry) delimiter
                  (parsed @ [take i entry])))"
  by pat_completeness auto
termination
proof (relation "measure (\<lambda>(entry, delimiter, parsed). length entry)")
  show "wf (measure (\<lambda>(entry, delimiter, parsed). length entry))"
    by simp
next
  fix entry delimiter :: string and parsed :: "string list" and i :: nat
  assume d: "delimiter \<noteq> []" and f: "find_str entry delimiter = Some i"
  have "find_str e delimiter = Some j \<Longrightarrow> j + length delimiter \<le> length e" for e j
    by (induction e arbitrary: j) (auto dest: prefix_length_le split: if_splits)
  from this [OF f] d
  show "((drop (i + length delimiter) entry, delimiter, parsed @ [take i entry]),
          (entry, delimiter, parsed)) \<in> measure (\<lambda>(entry, delimiter, parsed). length entry)"
    by (cases delimiter) auto
qed

declare parse_loop.simps [simp del]

definition parse :: "string \<Rightarrow> string \<Rightarrow> string list result" where
  "parse entry delimiter = parse_loop entry delimiter []"

subsection \<open>Validation\<close>

definition is_pint :: "string \<Rightarrow> bool" where
  "is_pint input \<longleftrightarrow> find_first_not_of input ''0123456789'' = None"

definition is_port :: "string \<Rightarrow> bool result" where
  "is_port port =
     (if port = ''*'' then Inr True
      else if \<not> is_pint port then Inr False
      else and_then (stoi port) (\<lambda>p.
        if p > 65535 \<or> p < 0 then Inr False
        else Inr True))"

text \<open>The \<^verbatim>\<open>for\<close> loop of \<^verbatim>\<open>is_ip\<close> over the parsed tokens, first to last.\<close>

fun is_ip_loop :: "string list \<Rightarrow> bool result" where
  "is_ip_loop [] = Inr True"
| "is_ip_loop (t # ts) =
     (if \<not> is_pint t then Inr False
      else and_then (stoi t) (\<lambda>p.
        if p > 255 \<or> p < 0 then Inr False
        else is_ip_loop ts))"

definition is_ip :: "string \<Rightarrow> bool result" where
  "is_ip ip =
     (if ip = ''*'' then Inr True
      else and_then (parse ip ''.'') (\<lambda>parsed.
        if length parsed \<noteq> 4 then Inr False
        else is_ip_loop parsed))"

text \<open>In \<^verbatim>\<open>is_valid\<close> and \<^verbatim>\<open>parse_entry\<close> the size test comes before every index, so
  \<open>parsed ! 0\<close> and \<open>parsed ! 1\<close> are read in range. \<^verbatim>\<open>||\<close> evaluates its right operand
  only when the left one is false.\<close>

definition is_valid :: "string \<Rightarrow> bool \<Rightarrow> bool result" where
  "is_valid pair is_value =
     and_then (parse pair '':'') (\<lambda>parsed.
       if length parsed \<noteq> 2 then Inr False
       else if is_value \<and> (parsed ! 0 = ''*'' \<or> parsed ! 1 = ''*'') then Inr False
       else if parsed ! 0 = ''*'' \<and> parsed ! 1 = ''*'' then Inr False
       else and_then (is_ip (parsed ! 0)) (\<lambda>ip_ok.
         if \<not> ip_ok then Inr False
         else and_then (is_port (parsed ! 1)) (\<lambda>port_ok.
           if \<not> port_ok then Inr False
           else Inr True)))"

definition parse_entry :: "string \<Rightarrow> string list result" where
  "parse_entry entry =
     and_then (parse entry '','') (\<lambda>parsed.
       if length parsed \<noteq> 2 then Inr []
       else and_then (is_valid (parsed ! 0) False) (\<lambda>key_ok.
         if \<not> key_ok then Inr []
         else and_then (is_valid (parsed ! 1) True) (\<lambda>value_ok.
           if \<not> value_ok then Inr []
           else Inr parsed)))"

subsection \<open>The store\<close>

type_synonym dictionary = "string \<rightharpoonup> string"

text \<open>\<^verbatim>\<open>save(key, value)\<close>: \<^verbatim>\<open>dictionary[key] = value\<close>.\<close>

definition save_pair :: "dictionary \<Rightarrow> string \<Rightarrow> string \<Rightarrow> dictionary" where
  "save_pair dict key val = dict(key \<mapsto> val)"

text \<open>\<^verbatim>\<open>save(entry)\<close> returns the status and leaves the dictionary as returned here.\<close>

definition save :: "dictionary \<Rightarrow> string \<Rightarrow> (Status \<times> dictionary) result" where
  "save dict entry =
     and_then (parse_entry entry) (\<lambda>parsed.
       if parsed = [] then Inr (INVALID, dict)
       else and_then (at parsed 0) (\<lambda>key.
         and_then (at parsed 1) (\<lambda>val.
           Inr (OK, save_pair dict key val))))"

text \<open>
  \<^verbatim>\<open>translate(key, value)\<close> returns the status and the content of the reference
  parameter \<^verbatim>\<open>value\<close> afterwards; \<open>val\<close> is its content before the call. The dictionary
  is only read: \<^verbatim>\<open>dictionary[k]\<close> is reached only after \<^verbatim>\<open>find(k)\<close> succeeded.
\<close>

definition translate :: "dictionary \<Rightarrow> string \<Rightarrow> string \<Rightarrow> (Status \<times> string) result" where
  "translate dict key val =
     and_then (parse key '':'') (\<lambda>parsed.
     and_then (at parsed 0) (\<lambda>p0.
     and_then (is_ip p0) (\<lambda>ip_ok.
       if \<not> ip_ok then Inr (INVALID, val)
       else
     and_then (at parsed 1) (\<lambda>p1.
     and_then (is_port p1) (\<lambda>port_ok.
       if \<not> port_ok then Inr (INVALID, val)
       else if p0 = ''*'' \<or> p1 = ''*'' then Inr (INVALID, val)
       else (case dict key of
               Some v \<Rightarrow> Inr (OK, v)
             | None \<Rightarrow>
                 (let key_port = p0 @ '':*'' in
                  case dict key_port of
                    Some v \<Rightarrow> Inr (OK, v)
                  | None \<Rightarrow>
                      (let key_ip = ''*:'' @ p1 in
                       case dict key_ip of
                         Some v \<Rightarrow> Inr (OK, v)
                       | None \<Rightarrow> Inr (NO_MATCH, val)))))))))"

subsection \<open>A run of the store\<close>

text \<open>
  The driver calls \<^verbatim>\<open>save\<close> and \<^verbatim>\<open>translate\<close> on one \<^verbatim>\<open>NATStore\<close>, passing an empty
  \<^verbatim>\<open>value\<close> to each \<^verbatim>\<open>translate\<close>. A fault ends the process, so a run that meets one
  reaches no further table.
\<close>

datatype call = DefineRule string | Translate string

fun step :: "dictionary \<Rightarrow> call \<Rightarrow> dictionary result" where
  "step dict (DefineRule entry) = and_then (save dict entry) (\<lambda>(status, dict'). Inr dict')"
| "step dict (Translate key) = and_then (translate dict key []) (\<lambda>(status, val). Inr dict)"

fun run :: "dictionary \<Rightarrow> call list \<Rightarrow> dictionary result" where
  "run dict [] = Inr dict"
| "run dict (c # cs) = and_then (step dict c) (\<lambda>dict'. run dict' cs)"

subsection \<open>The grammar of the specification\<close>

text \<open>
  The tokenizer as the specification words it: every occurrence of the separator ends a
  field, and what is left after the last occurrence is the last field.
\<close>

fun fields :: "char \<Rightarrow> string \<Rightarrow> string list" where
  "fields sep [] = [[]]"
| "fields sep (c # cs) =
     (if c = sep then [] # fields sep cs
      else (case fields sep cs of
              [] \<Rightarrow> [[c]]
            | f # fs \<Rightarrow> (c # f) # fs))"

text \<open>A numeric token: at least one character, decimal digits only, value at most \<open>hi\<close>.\<close>

definition numeric_token :: "nat \<Rightarrow> string \<Rightarrow> bool" where
  "numeric_token hi t \<longleftrightarrow> t \<noteq> [] \<and> list_all isdigit t \<and> decimal_value t \<le> hi"

definition address_text :: "string \<Rightarrow> bool" where
  "address_text a \<longleftrightarrow>
     a = ''*'' \<or>
     (length (fields CHR ''.'' a) = 4 \<and> list_all (numeric_token 255) (fields CHR ''.'' a))"

definition port_text :: "string \<Rightarrow> bool" where
  "port_text p \<longleftrightarrow> p = ''*'' \<or> numeric_token 65535 p"

text \<open>An Endpoint text has exactly two fields, the address and the port.\<close>

definition endpoint_fields :: "string \<Rightarrow> (string \<times> string) option" where
  "endpoint_fields e = (case fields CHR '':'' e of [a, p] \<Rightarrow> Some (a, p) | _ \<Rightarrow> None)"

definition valid_endpoint :: "string \<Rightarrow> bool" where
  "valid_endpoint e \<longleftrightarrow>
     (case endpoint_fields e of Some (a, p) \<Rightarrow> address_text a \<and> port_text p | None \<Rightarrow> False)"

definition fully_wildcard :: "string \<Rightarrow> bool" where
  "fully_wildcard e \<longleftrightarrow> endpoint_fields e = Some (''*'', ''*'')"

definition fully_concrete :: "string \<Rightarrow> bool" where
  "fully_concrete e \<longleftrightarrow>
     (case endpoint_fields e of Some (a, p) \<Rightarrow> a \<noteq> ''*'' \<and> p \<noteq> ''*'' | None \<Rightarrow> False)"

text \<open>A rule text: a source that is not fully wildcard, a comma, a concrete destination.\<close>

definition rule_source :: "string \<Rightarrow> bool" where
  "rule_source s \<longleftrightarrow> valid_endpoint s \<and> \<not> fully_wildcard s"

definition rule_destination :: "string \<Rightarrow> bool" where
  "rule_destination d \<longleftrightarrow> valid_endpoint d \<and> fully_concrete d"

definition valid_rule :: "string \<Rightarrow> bool" where
  "valid_rule r \<longleftrightarrow>
     (case fields CHR '','' r of [s, d] \<Rightarrow> rule_source s \<and> rule_destination d | _ \<Rightarrow> False)"

section \<open>The tokenizer\<close>

lemma fields_not_Nil [simp]: "fields sep s \<noteq> []"
  by (induction s) (auto split: list.splits)

lemma length_fields: "length (fields sep s) = Suc (count_list s sep)"
  by (induction s) (auto split: list.splits)

lemma fields_without_sep: "sep \<notin> set s \<Longrightarrow> fields sep s = [s]"
  by (induction s) auto

lemma fields_append_sep: "sep \<notin> set a \<Longrightarrow> fields sep (a @ sep # b) = a # fields sep b"
  by (induction a) auto

lemma find_str_char:
  "find_str s [sep] =
     (if sep \<in> set s then Some (length (takeWhile (\<lambda>c. c \<noteq> sep) s)) else None)"
  by (induction s) auto

lemma parse_loop_fields: "parse_loop s [sep] acc = Inr (acc @ fields sep s)"
proof (induction "length s" arbitrary: s acc rule: less_induct)
  case less
  show ?case
  proof (cases "sep \<in> set s")
    case False
    then show ?thesis
      by (simp add: parse_loop.simps [of s] find_str_char fields_without_sep)
  next
    case True
    then obtain a b where s: "s = a @ sep # b" and a: "sep \<notin> set a"
      by (auto dest: split_list_first)
    from a have tw: "takeWhile (\<lambda>c. c \<noteq> sep) (a @ sep # b) = a"
      by (induction a) auto
    have "parse_loop s [sep] acc = parse_loop b [sep] (acc @ [a])"
      unfolding s by (subst parse_loop.simps) (simp add: find_str_char tw)
    also have "\<dots> = Inr ((acc @ [a]) @ fields sep b)"
      by (rule less) (simp add: s)
    finally show ?thesis
      using a by (simp add: s fields_append_sep)
  qed
qed

lemma parse_fields: "parse s [sep] = Inr (fields sep s)"
  by (simp add: parse_def parse_loop_fields)

section \<open>Validation accepts exactly the grammar\<close>

lemma is_pint_digits: "is_pint t \<longleftrightarrow> list_all isdigit t"
  unfolding is_pint_def
  by (induction t) (auto simp: isdigit_def)

lemma stoi_digits:
  assumes "list_all isdigit t"
  shows "stoi t =
     (if t = [] then Inl Invalid_Argument
      else if INT_MAX < int (decimal_value t) then Inl Out_Of_Range
      else Inr (int (decimal_value t)))"
proof (cases t)
  case Nil
  then show ?thesis by (simp add: stoi_def)
next
  case (Cons c cs)
  with assms have c: "isdigit c" and t: "takeWhile isdigit t = t"
    by (auto simp: list_all_iff takeWhile_eq_all_conv)
  from c have "\<not> isspace c" "c \<noteq> CHR ''-''" "c \<noteq> CHR ''+''"
    by (auto simp: isdigit_def isspace_def)
  then show ?thesis
    using t Cons by (simp add: stoi_def Let_def INT_MIN_def)
qed

lemma is_port_accepts: "is_port p = Inr True \<longleftrightarrow> port_text p"
  by (auto simp: is_port_def port_text_def numeric_token_def is_pint_digits stoi_digits INT_MAX_def)

lemma is_ip_loop_accepts: "is_ip_loop ts = Inr True \<longleftrightarrow> list_all (numeric_token 255) ts"
  by (induction ts) (auto simp: numeric_token_def is_pint_digits stoi_digits INT_MAX_def)

lemma is_ip_accepts: "is_ip a = Inr True \<longleftrightarrow> address_text a"
  by (auto simp: is_ip_def address_text_def parse_fields is_ip_loop_accepts)

lemma and_then_guard:
  "and_then m (\<lambda>ok. if \<not> ok then Inr False else k) = Inr True \<longleftrightarrow> m = Inr True \<and> k = Inr True"
  by (cases m) auto

lemma fields_single: "fields sep s = [x] \<Longrightarrow> s = x \<and> sep \<notin> set s"
  by (induction s arbitrary: x) (auto split: if_splits list.splits)

lemma fields_pair: "fields sep s = [a, b] \<Longrightarrow> s = a @ sep # b \<and> sep \<notin> set a \<and> sep \<notin> set b"
  by (induction s arbitrary: a) (auto split: if_splits list.splits dest: fields_single)

lemma endpoint_fields_Some:
  "endpoint_fields e = Some (a, p) \<longleftrightarrow> fields CHR '':'' e = [a, p]"
  by (auto simp: endpoint_fields_def split: list.splits)

lemma is_valid_accepts:
  "is_valid e is_value = Inr True \<longleftrightarrow>
     valid_endpoint e \<and> (if is_value then fully_concrete e else \<not> fully_wildcard e)"
  by (auto simp: is_valid_def parse_fields valid_endpoint_def fully_concrete_def fully_wildcard_def
        endpoint_fields_def and_then_guard is_ip_accepts is_port_accepts
      split: list.splits)


section \<open>Saving and translating\<close>

lemma and_then_eq_Inr: "and_then m k = Inr y \<longleftrightarrow> (\<exists>x. m = Inr x \<and> k x = Inr y)"
  by (cases m) auto

lemma rule_source_accepts: "is_valid s False = Inr True \<longleftrightarrow> rule_source s"
  by (simp add: is_valid_accepts rule_source_def)

lemma rule_destination_accepts: "is_valid d True = Inr True \<longleftrightarrow> rule_destination d"
  by (simp add: is_valid_accepts rule_destination_def)

lemma parse_entry_pair:
  assumes "fields CHR '','' t = [s, d]"
  shows "parse_entry t = Inr [s, d] \<longleftrightarrow> rule_source s \<and> rule_destination d"
    and "parse_entry t = Inr ps \<Longrightarrow> ps = [] \<or> ps = [s, d]"
proof -
  have pe: "parse_entry t =
      and_then (is_valid s False) (\<lambda>key_ok.
        if \<not> key_ok then Inr []
        else and_then (is_valid d True) (\<lambda>value_ok.
          if \<not> value_ok then Inr [] else Inr [s, d]))"
    using assms by (simp add: parse_entry_def parse_fields cong: if_cong)
  show "parse_entry t = Inr [s, d] \<longleftrightarrow> rule_source s \<and> rule_destination d"
    unfolding pe rule_source_accepts [symmetric] rule_destination_accepts [symmetric]
    by (cases "is_valid s False"; cases "is_valid d True") auto
  show "parse_entry t = Inr ps \<Longrightarrow> ps = [] \<or> ps = [s, d]"
    unfolding pe
    by (cases "is_valid s False"; cases "is_valid d True") (auto split: if_splits)
qed

lemma parse_entry_other:
  assumes "length (fields CHR '','' t) \<noteq> 2"
  shows "parse_entry t = Inr []"
  using assms by (simp add: parse_entry_def parse_fields)

lemma save_OK:
  "save tbl t = Inr (OK, tbl') \<longleftrightarrow>
     (\<exists>s d. fields CHR '','' t = [s, d] \<and> rule_source s \<and> rule_destination d \<and> tbl' = tbl(s \<mapsto> d))"
proof (cases "\<exists>s d. fields CHR '','' t = [s, d]")
  case False
  then have "length (fields CHR '','' t) \<noteq> 2"
    by (auto simp: length_Suc_conv numeral_2_eq_2)
  with False show ?thesis
    by (simp add: save_def parse_entry_other)
next
  case True
  then obtain s d where f: "fields CHR '','' t = [s, d]"
    by blast
  show ?thesis
  proof (cases "parse_entry t")
    case (Inl e)
    with parse_entry_pair(1) [OF f] show ?thesis
      by (auto simp: save_def f)
  next
    case (Inr ps)
    with parse_entry_pair [OF f] have "ps = [] \<and> \<not> (rule_source s \<and> rule_destination d)
        \<or> ps = [s, d] \<and> rule_source s \<and> rule_destination d"
      by auto
    with Inr show ?thesis
      by (auto simp: save_def f at_def save_pair_def)
  qed
qed

lemma save_INVALID: "save tbl t = Inr (INVALID, tbl') \<Longrightarrow> tbl' = tbl"
  by (auto simp: save_def and_then_eq_Inr split: if_splits)

lemma save_not_NO_MATCH: "save tbl t \<noteq> Inr (NO_MATCH, tbl')"
  by (auto simp: save_def and_then_eq_Inr split: if_splits)

lemma translate_concrete:
  assumes "fields CHR '':'' q = [a, p]" "address_text a" "port_text p" "a \<noteq> ''*''" "p \<noteq> ''*''"
  shows "translate tbl q v =
     Inr (case tbl q of
            Some d \<Rightarrow> (OK, d)
          | None \<Rightarrow>
              (case tbl (a @ '':*'') of
                 Some d \<Rightarrow> (OK, d)
               | None \<Rightarrow>
                   (case tbl (''*:'' @ p) of
                      Some d \<Rightarrow> (OK, d)
                    | None \<Rightarrow> (NO_MATCH, v))))"
  using assms
  by (simp add: translate_def parse_fields at_def is_ip_accepts [symmetric] is_port_accepts [symmetric]
        split: option.splits)

lemma translate_wildcard:
  assumes "fields CHR '':'' q = [a, p]" "address_text a" "port_text p" "a = ''*'' \<or> p = ''*''"
  shows "translate tbl q v = Inr (INVALID, v)"
  using assms
  by (auto simp: translate_def parse_fields at_def is_ip_accepts [symmetric] is_port_accepts [symmetric])

lemma translate_keeps_value: "translate tbl q v = Inr (st, w) \<Longrightarrow> st \<noteq> OK \<Longrightarrow> w = v"
  by (auto simp: translate_def and_then_eq_Inr Let_def split: if_splits option.splits)

lemma translate_partial_wildcard:
  assumes "rule_source s" and "\<not> fully_concrete s"
  shows "translate tbl s v = Inr (INVALID, v)"
proof -
  from assms obtain a p where f: "fields CHR '':'' s = [a, p]"
    and ok: "address_text a" "port_text p" and w: "a = ''*'' \<or> p = ''*''"
    by (auto simp: rule_source_def valid_endpoint_def fully_concrete_def endpoint_fields_Some
        split: option.splits)
  then show ?thesis
    by (rule translate_wildcard)
qed

section \<open>Runs\<close>

lemma step_Inr:
  "step tbl c = Inr tbl' \<Longrightarrow>
     tbl' = tbl \<or> (\<exists>s d. rule_source s \<and> rule_destination d \<and> tbl' = tbl(s \<mapsto> d))"
proof (cases c)
  case (DefineRule t)
  assume "step tbl c = Inr tbl'"
  with DefineRule obtain st where s: "save tbl t = Inr (st, tbl')"
    by (auto simp: and_then_eq_Inr)
  show ?thesis
  proof (cases st)
    case INVALID
    with s show ?thesis by (auto dest: save_INVALID)
  next
    case OK
    with s show ?thesis by (auto simp: save_OK)
  next
    case NO_MATCH
    with s show ?thesis by (simp add: save_not_NO_MATCH)
  qed
next
  case (Translate q)
  assume "step tbl c = Inr tbl'"
  with Translate show ?thesis
    by (auto simp: and_then_eq_Inr)
qed

lemma run_keeps_rules:
  assumes "run tbl cs = Inr tbl'"
    and "\<And>k d. tbl k = Some d \<Longrightarrow> rule_source k \<and> rule_destination d"
    and "tbl' k = Some d"
  shows "rule_source k \<and> rule_destination d"
  using assms
proof (induction cs arbitrary: tbl)
  case Nil
  then show ?case by simp
next
  case (Cons c cs)
  from Cons.prems(1) obtain mid where m: "step tbl c = Inr mid" and r: "run mid cs = Inr tbl'"
    by (auto simp: and_then_eq_Inr)
  from step_Inr [OF m] Cons.prems(2)
  have inv: "rule_source k' \<and> rule_destination d'" if "mid k' = Some d'" for k' d'
    using that by (auto split: if_splits)
  show ?case
    by (rule Cons.IH [OF r inv Cons.prems(3)])
qed

text \<open>Evaluating the program on a concrete text.\<close>

lemmas run_code = parse_fields is_ip_def is_port_def is_valid_def parse_entry_def save_def
  save_pair_def translate_def at_def is_pint_def stoi_def Let_def isdigit_def isspace_def
  decimal_value_def digit_value_def INT_MAX_def INT_MIN_def

lemmas run_grammar = valid_rule_def rule_source_def rule_destination_def valid_endpoint_def
  fully_wildcard_def fully_concrete_def endpoint_fields_def address_text_def port_text_def
  numeric_token_def isdigit_def decimal_value_def digit_value_def

section \<open>Claims\<close>

text \<open>
  C1. The claim: a query text that does not split on \<open>:\<close> into exactly two parts makes
  \<^verbatim>\<open>translate\<close> return INVALID without a destination. The code differs:
  \<^verbatim>\<open>translate\<close> never tests the number of parts (\<^verbatim>\<open>is_valid\<close> does). The query
  \<open>1.2.3.4:80:90\<close> has three parts, and with the rule \<open>1.2.3.4:*,9.9.9.9:9\<close> stored the
  answer is OK with that rule's destination; the query \<open>1.2.3.4\<close> has one part, and
  \<^verbatim>\<open>parsed[1]\<close> is read past the end of the vector.
\<close>

theorem translate_ignores_field_count:
  "parse ''1.2.3.4:80:90'' '':'' = Inr [''1.2.3.4'', ''80'', ''90''] \<and>
   save Map.empty ''1.2.3.4:*,9.9.9.9:9'' = Inr (OK, [''1.2.3.4:*'' \<mapsto> ''9.9.9.9:9'']) \<and>
   translate [''1.2.3.4:*'' \<mapsto> ''9.9.9.9:9''] ''1.2.3.4:80:90'' [] = Inr (OK, ''9.9.9.9:9'') \<and>
   parse ''1.2.3.4'' '':'' = Inr [''1.2.3.4''] \<and>
   translate Map.empty ''1.2.3.4'' [] = Inl Undefined_Behaviour"
  by (simp add: run_code)

text \<open>
  C2. The claim: on every input \<^verbatim>\<open>save\<close> returns OK or INVALID and \<^verbatim>\<open>translate\<close>
  returns OK, INVALID or NO_MATCH, and nothing is ever thrown. The code differs:
  \<^verbatim>\<open>is_pint\<close> answers true for the empty string, and \<^verbatim>\<open>stoi\<close> then throws
  \<^verbatim>\<open>invalid_argument\<close>; a digit string beyond \<^verbatim>\<open>INT_MAX\<close> makes it throw
  \<^verbatim>\<open>out_of_range\<close>. Nothing catches either exception.
\<close>

theorem save_throws_on_empty_number:
  "is_pint [] \<and>
   save tbl ''1.2.3.4:,1.2.3.4:80'' = Inl Invalid_Argument \<and>
   translate tbl ''1.2.3.4:'' v = Inl Invalid_Argument \<and>
   save tbl ''1.2.3.4:99999999999,1.2.3.4:80'' = Inl Out_Of_Range"
  by (simp add: run_code)

text \<open>
  C3. For every table and every valid, fully concrete query \<open>address:port\<close>,
  \<^verbatim>\<open>translate\<close> answers with the destination stored under the first of the keys
  \<open>address:port\<close>, \<open>address:*\<close>, \<open>*:port\<close> that the table holds, in this order; it
  answers NO_MATCH exactly when the table holds none of the three; a destination stored
  under the exact key is the one returned, whatever the wildcard keys hold.
\<close>

theorem translate_probe_order:
  assumes "valid_endpoint q" and "fully_concrete q" and "endpoint_fields q = Some (a, p)"
  shows "q = a @ '':'' @ p \<and>
    translate tbl q v =
      Inr (case tbl (a @ '':'' @ p) of
             Some d \<Rightarrow> (OK, d)
           | None \<Rightarrow>
               (case tbl (a @ '':*'') of
                  Some d \<Rightarrow> (OK, d)
                | None \<Rightarrow>
                    (case tbl (''*:'' @ p) of
                       Some d \<Rightarrow> (OK, d)
                     | None \<Rightarrow> (NO_MATCH, v)))) \<and>
    (translate tbl q v = Inr (NO_MATCH, v) \<longleftrightarrow>
       tbl (a @ '':'' @ p) = None \<and> tbl (a @ '':*'') = None \<and> tbl (''*:'' @ p) = None) \<and>
    (\<forall>d. tbl (a @ '':'' @ p) = Some d \<longrightarrow> translate tbl q v = Inr (OK, d))"
proof -
  from assms have f: "fields CHR '':'' q = [a, p]"
    and ok: "address_text a" "port_text p" "a \<noteq> ''*''" "p \<noteq> ''*''"
    by (simp_all add: endpoint_fields_Some [symmetric] valid_endpoint_def fully_concrete_def)
  from fields_pair [OF f] have q: "a @ '':'' @ p = q"
    by simp
  note t = translate_concrete [OF f ok, of tbl v]
  show ?thesis
    unfolding q by (simp add: t split: option.splits)
qed

theorem translate_probe_order_witness:
  "valid_endpoint ''10.0.1.1:8082'' \<and> fully_concrete ''10.0.1.1:8082'' \<and>
   endpoint_fields ''10.0.1.1:8082'' = Some (''10.0.1.1'', ''8082'') \<and>
   translate [''*:8082'' \<mapsto> ''3.3.3.3:3'', ''10.0.1.1:*'' \<mapsto> ''2.2.2.2:2'',
       ''10.0.1.1:8082'' \<mapsto> ''1.1.1.1:1''] ''10.0.1.1:8082'' [] = Inr (OK, ''1.1.1.1:1'') \<and>
   translate [''*:8082'' \<mapsto> ''3.3.3.3:3'', ''10.0.1.1:*'' \<mapsto> ''2.2.2.2:2'']
       ''10.0.1.1:8082'' [] = Inr (OK, ''2.2.2.2:2'') \<and>
   translate [''*:8082'' \<mapsto> ''3.3.3.3:3''] ''10.0.1.1:8082'' [] = Inr (OK, ''3.3.3.3:3'') \<and>
   translate Map.empty ''10.0.1.1:8082'' [] = Inr (NO_MATCH, [])"
proof -
  have h1: "valid_endpoint ''10.0.1.1:8082''"
    by (simp add: run_grammar)
  have h2: "fully_concrete ''10.0.1.1:8082''"
    by (simp add: run_grammar)
  have h3: "endpoint_fields ''10.0.1.1:8082'' = Some (''10.0.1.1'', ''8082'')"
    by (simp add: run_grammar)
  note w = translate_probe_order [OF h1 h2 h3, THEN conjunct2, THEN conjunct1]
  show ?thesis
    using h1 h2 h3 by (simp add: w)
qed

text \<open>
  C4. The claim: \<^verbatim>\<open>save\<close> returns OK exactly for a text of two comma-separated parts, a
  valid source that is not fully wildcard and a valid, fully concrete destination, and
  INVALID in every other case. The first half holds (lemma \<open>save_OK\<close>). The
  second half fails: the text below is not a valid rule, its second octet is empty, and
  \<^verbatim>\<open>save\<close> ends in the exception of \<^verbatim>\<open>stoi\<close> instead of returning INVALID.
\<close>

theorem save_neither_OK_nor_INVALID:
  "\<not> valid_rule ''1..3.4:80,1.2.3.4:80'' \<and>
   save tbl ''1..3.4:80,1.2.3.4:80'' = Inl Invalid_Argument"
  by (simp add: run_code run_grammar)

text \<open>
  C5. For every valid rule whose source \<open>s\<close> is fully concrete and whose destination
  is \<open>d\<close>: \<^verbatim>\<open>save\<close> on the rule returns OK, and \<^verbatim>\<open>translate\<close> of \<open>s\<close> on the table it
  leaves returns OK with \<open>d\<close>.
\<close>

theorem save_then_translate:
  assumes "valid_rule r" and "fields CHR '','' r = [s, d]" and "fully_concrete s"
  shows "save tbl r = Inr (OK, tbl(s \<mapsto> d)) \<and> translate (tbl(s \<mapsto> d)) s v = Inr (OK, d)"
proof -
  from assms(1,2) have sd: "rule_source s" "rule_destination d"
    by (simp_all add: valid_rule_def)
  with assms(2) have "save tbl r = Inr (OK, tbl(s \<mapsto> d))"
    by (simp add: save_OK)
  moreover
  from sd(1) assms(3) obtain a p where f: "fields CHR '':'' s = [a, p]"
    and ok: "address_text a" "port_text p" "a \<noteq> ''*''" "p \<noteq> ''*''"
    by (auto simp: rule_source_def valid_endpoint_def fully_concrete_def endpoint_fields_Some
        split: option.splits)
  have "translate (tbl(s \<mapsto> d)) s v = Inr (OK, d)"
    by (simp add: translate_concrete [OF f ok])
  ultimately show ?thesis
    by simp
qed

theorem save_then_translate_witness:
  "valid_rule ''10.0.1.1:8080,192.168.0.1:80'' \<and>
   fields CHR '','' ''10.0.1.1:8080,192.168.0.1:80'' = [''10.0.1.1:8080'', ''192.168.0.1:80''] \<and>
   fully_concrete ''10.0.1.1:8080'' \<and>
   save Map.empty ''10.0.1.1:8080,192.168.0.1:80'' =
     Inr (OK, [''10.0.1.1:8080'' \<mapsto> ''192.168.0.1:80'']) \<and>
   translate [''10.0.1.1:8080'' \<mapsto> ''192.168.0.1:80''] ''10.0.1.1:8080'' [] =
     Inr (OK, ''192.168.0.1:80'')"
proof -
  have h1: "valid_rule ''10.0.1.1:8080,192.168.0.1:80''"
    by (simp add: run_grammar)
  have h2: "fields CHR '','' ''10.0.1.1:8080,192.168.0.1:80'' = [''10.0.1.1:8080'', ''192.168.0.1:80'']"
    by simp
  have h3: "fully_concrete ''10.0.1.1:8080''"
    by (simp add: run_grammar)
  from save_then_translate [OF h1 h2 h3, of Map.empty "[]"] h1 h2 h3 show ?thesis
    by simp
qed

text \<open>
  C6. \<^verbatim>\<open>is_ip\<close> accepts a string exactly when it is \<open>*\<close> or has exactly four
  dot-separated tokens, each a non-empty run of decimal digits of value at most 255;
  \<^verbatim>\<open>is_port\<close> accepts a string exactly when it is \<open>*\<close> or a non-empty run of decimal
  digits of value at most 65535; the numeric test \<^verbatim>\<open>is_pint\<close> passes a token exactly
  when it has no character other than a decimal digit, so a sign fails it, and a port
  other than \<open>*\<close> with such a character is answered with false. (A string that is not
  accepted is answered with false or, as under C2, with an exception.)
\<close>

theorem field_validation_accepts:
  "(is_ip a = Inr True \<longleftrightarrow> address_text a) \<and>
   (is_port p = Inr True \<longleftrightarrow> port_text p) \<and>
   (is_pint t \<longleftrightarrow> list_all isdigit t) \<and>
   (p \<noteq> ''*'' \<and> \<not> list_all isdigit p \<longrightarrow> is_port p = Inr False)"
proof -
  have "is_port p = Inr False" if "p \<noteq> ''*''" and "\<not> list_all isdigit p"
    using that by (simp add: is_port_def is_pint_digits)
  then show ?thesis
    by (simp add: is_ip_accepts is_port_accepts is_pint_digits)
qed

theorem field_validation_accepts_witness:
  "address_text ''10.0.1.1'' \<and> is_ip ''10.0.1.1'' = Inr True \<and>
   port_text ''8080'' \<and> is_port ''8080'' = Inr True \<and>
   list_all isdigit ''8080'' \<and> is_pint ''8080'' \<and>
   \<not> list_all isdigit ''+80'' \<and> is_port ''+80'' = Inr False"
proof -
  have h1: "address_text ''10.0.1.1''"
    by (simp add: run_grammar)
  have h2: "port_text ''8080''"
    by (simp add: run_grammar)
  have h3: "list_all isdigit ''8080''"
    by (simp add: run_grammar)
  have h4: "\<not> list_all isdigit ''+80''"
    by (simp add: run_grammar)
  from field_validation_accepts [of "''10.0.1.1''" "''8080''" "''8080''"]
    field_validation_accepts [of "''10.0.1.1''" "''+80''" "''8080''"] h1 h2 h3 h4
  show ?thesis
    by simp
qed

text \<open>
  C7. The claim: for every table, a query text whose address field or port field is
  \<open>*\<close> makes \<^verbatim>\<open>translate\<close> return INVALID. It does when the other field is accepted
  by validation (lemma \<open>translate_wildcard\<close>). The code tests the wildcard only
  after validating both fields, so it differs on the queries below: \<open>*:\<close> and \<open>1..3.4:*\<close>
  end in the exception of \<^verbatim>\<open>stoi\<close> on an empty token, and \<open>*\<close> alone reads
  \<^verbatim>\<open>parsed[1]\<close> past the end of the vector.
\<close>

theorem translate_wildcard_query_throws:
  "parse ''*:'' '':'' = Inr [''*'', []] \<and>
   translate [''*:8082'' \<mapsto> ''192.168.0.1:81''] ''*:'' [] = Inl Invalid_Argument \<and>
   parse ''1..3.4:*'' '':'' = Inr [''1..3.4'', ''*''] \<and>
   translate [''*:8082'' \<mapsto> ''192.168.0.1:81''] ''1..3.4:*'' [] = Inl Invalid_Argument \<and>
   parse ''*'' '':'' = Inr [''*''] \<and>
   translate [''*:8082'' \<mapsto> ''192.168.0.1:81''] ''*'' [] = Inl Undefined_Behaviour"
  by (simp add: run_code)

text \<open>
  C8, as the specification states it, fails for a source with a wildcard field: after
  two valid rules with the source \<open>*:8082\<close>, \<^verbatim>\<open>translate\<close> of \<open>*:8082\<close> returns INVALID
  and not the second destination.
\<close>

theorem overwrite_wildcard_source_counterexample:
  "valid_rule ''*:8082,192.168.0.1:81'' \<and> valid_rule ''*:8082,192.168.0.1:82'' \<and>
   save Map.empty ''*:8082,192.168.0.1:81'' = Inr (OK, [''*:8082'' \<mapsto> ''192.168.0.1:81'']) \<and>
   save [''*:8082'' \<mapsto> ''192.168.0.1:81''] ''*:8082,192.168.0.1:82'' =
     Inr (OK, [''*:8082'' \<mapsto> ''192.168.0.1:82'']) \<and>
   translate [''*:8082'' \<mapsto> ''192.168.0.1:82''] ''*:8082'' [] = Inr (INVALID, []) \<and>
   translate [''*:8082'' \<mapsto> ''192.168.0.1:82''] ''*:8082'' [] \<noteq> Inr (OK, ''192.168.0.1:82'')"
  by (simp add: run_code run_grammar)

text \<open>
  C8, amended. For every table and every two valid rules with the same source text
  \<open>s\<close>, saving the first and then the second leaves the second destination under the key
  \<open>s\<close> and every other key as it was; \<^verbatim>\<open>translate\<close> of \<open>s\<close> afterwards returns the
  second destination when \<open>s\<close> is fully concrete, and INVALID when \<open>s\<close> has a wildcard
  field.
\<close>

theorem last_write_wins:
  assumes "valid_rule r1" and "fields CHR '','' r1 = [s, d1]"
    and "valid_rule r2" and "fields CHR '','' r2 = [s, d2]"
  shows "save tbl r1 = Inr (OK, tbl(s \<mapsto> d1)) \<and>
    save (tbl(s \<mapsto> d1)) r2 = Inr (OK, tbl(s \<mapsto> d2)) \<and>
    (tbl(s \<mapsto> d2)) s = Some d2 \<and>
    (\<forall>k. k \<noteq> s \<longrightarrow> (tbl(s \<mapsto> d2)) k = tbl k) \<and>
    (fully_concrete s \<longrightarrow> translate (tbl(s \<mapsto> d2)) s v = Inr (OK, d2)) \<and>
    (\<not> fully_concrete s \<longrightarrow> translate (tbl(s \<mapsto> d2)) s v = Inr (INVALID, v))"
proof -
  from assms have sd: "rule_source s" "rule_destination d1" "rule_destination d2"
    by (simp_all add: valid_rule_def)
  from sd assms(2) have 1: "save tbl r1 = Inr (OK, tbl(s \<mapsto> d1))"
    by (simp add: save_OK)
  from sd assms(4) have 2: "save (tbl(s \<mapsto> d1)) r2 = Inr (OK, tbl(s \<mapsto> d2))"
    by (simp add: save_OK)
  have 3: "translate (tbl(s \<mapsto> d2)) s v = Inr (OK, d2)" if c: "fully_concrete s"
  proof -
    from sd(1) c obtain a p where f: "fields CHR '':'' s = [a, p]"
      and ok: "address_text a" "port_text p" "a \<noteq> ''*''" "p \<noteq> ''*''"
      by (auto simp: rule_source_def valid_endpoint_def fully_concrete_def endpoint_fields_Some
          split: option.splits)
    show ?thesis
      by (simp add: translate_concrete [OF f ok])
  qed
  from 1 2 3 translate_partial_wildcard [OF sd(1)] show ?thesis
    by simp
qed

theorem last_write_wins_witness:
  "valid_rule ''10.0.1.1:8080,192.168.0.1:80'' \<and>
   fields CHR '','' ''10.0.1.1:8080,192.168.0.1:80'' = [''10.0.1.1:8080'', ''192.168.0.1:80''] \<and>
   valid_rule ''10.0.1.1:8080,192.168.0.9:90'' \<and>
   fields CHR '','' ''10.0.1.1:8080,192.168.0.9:90'' = [''10.0.1.1:8080'', ''192.168.0.9:90''] \<and>
   fully_concrete ''10.0.1.1:8080'' \<and>
   save Map.empty ''10.0.1.1:8080,192.168.0.1:80'' =
     Inr (OK, [''10.0.1.1:8080'' \<mapsto> ''192.168.0.1:80'']) \<and>
   save [''10.0.1.1:8080'' \<mapsto> ''192.168.0.1:80''] ''10.0.1.1:8080,192.168.0.9:90'' =
     Inr (OK, [''10.0.1.1:8080'' \<mapsto> ''192.168.0.9:90'']) \<and>
   translate [''10.0.1.1:8080'' \<mapsto> ''192.168.0.9:90''] ''10.0.1.1:8080'' [] =
     Inr (OK, ''192.168.0.9:90'')"
proof -
  have h1: "valid_rule ''10.0.1.1:8080,192.168.0.1:80''"
    by (simp add: run_grammar)
  have h2: "fields CHR '','' ''10.0.1.1:8080,192.168.0.1:80'' = [''10.0.1.1:8080'', ''192.168.0.1:80'']"
    by simp
  have h3: "valid_rule ''10.0.1.1:8080,192.168.0.9:90''"
    by (simp add: run_grammar)
  have h4: "fields CHR '','' ''10.0.1.1:8080,192.168.0.9:90'' = [''10.0.1.1:8080'', ''192.168.0.9:90'']"
    by simp
  have h5: "fully_concrete ''10.0.1.1:8080''"
    by (simp add: run_grammar)
  from last_write_wins [OF h1 h2 h3 h4, of Map.empty "[]"] h1 h2 h3 h4 h5 show ?thesis
    by simp
qed

text \<open>
  C9. In every table that a run of \<^verbatim>\<open>save\<close> and \<^verbatim>\<open>translate\<close> calls reaches from the
  empty table, every key is a valid Endpoint text that is not fully wildcard and every
  value is a valid, fully concrete Endpoint text; and a \<^verbatim>\<open>save\<close> that returns INVALID
  leaves the table as it was.
\<close>

theorem reachable_table_invariant:
  "(run Map.empty calls = Inr tbl \<and> tbl k = Some d \<longrightarrow>
      valid_endpoint k \<and> \<not> fully_wildcard k \<and> valid_endpoint d \<and> fully_concrete d) \<and>
   (save tbl0 t = Inr (INVALID, tbl1) \<longrightarrow> tbl1 = tbl0)"
proof -
  have "rule_source k \<and> rule_destination d" if "run Map.empty calls = Inr tbl" "tbl k = Some d"
    using that(1) _ that(2) by (rule run_keeps_rules) simp
  then show ?thesis
    by (auto simp: rule_source_def rule_destination_def dest: save_INVALID)
qed

theorem reachable_table_invariant_witness:
  "run Map.empty [DefineRule ''10.0.1.1:8080,192.168.0.1:80'', Translate ''10.0.1.1:8085'',
      DefineRule ''10.0.1.1:8080,*:80'', Translate ''*:8080'']
     = Inr [''10.0.1.1:8080'' \<mapsto> ''192.168.0.1:80''] \<and>
   [''10.0.1.1:8080'' \<mapsto> ''192.168.0.1:80''] ''10.0.1.1:8080'' = Some ''192.168.0.1:80'' \<and>
   valid_endpoint ''10.0.1.1:8080'' \<and> \<not> fully_wildcard ''10.0.1.1:8080'' \<and>
   valid_endpoint ''192.168.0.1:80'' \<and> fully_concrete ''192.168.0.1:80'' \<and>
   save [''10.0.1.1:8080'' \<mapsto> ''192.168.0.1:80''] ''10.0.1.1:8080,*:80'' =
     Inr (INVALID, [''10.0.1.1:8080'' \<mapsto> ''192.168.0.1:80''])"
proof -
  have h1: "run Map.empty [DefineRule ''10.0.1.1:8080,192.168.0.1:80'', Translate ''10.0.1.1:8085'',
      DefineRule ''10.0.1.1:8080,*:80'', Translate ''*:8080'']
     = Inr [''10.0.1.1:8080'' \<mapsto> ''192.168.0.1:80'']"
    by (simp add: run_code)
  have h2: "[''10.0.1.1:8080'' \<mapsto> ''192.168.0.1:80''] ''10.0.1.1:8080'' = Some ''192.168.0.1:80''"
    by simp
  have h3: "save [''10.0.1.1:8080'' \<mapsto> ''192.168.0.1:80''] ''10.0.1.1:8080,*:80'' =
     Inr (INVALID, [''10.0.1.1:8080'' \<mapsto> ''192.168.0.1:80''])"
    by (simp add: run_code)
  from reachable_table_invariant [of "[DefineRule ''10.0.1.1:8080,192.168.0.1:80'',
      Translate ''10.0.1.1:8085'', DefineRule ''10.0.1.1:8080,*:80'', Translate ''*:8080'']"
      "[''10.0.1.1:8080'' \<mapsto> ''192.168.0.1:80'']" "''10.0.1.1:8080''" "''192.168.0.1:80''"
      "[''10.0.1.1:8080'' \<mapsto> ''192.168.0.1:80'']" "''10.0.1.1:8080,*:80''"
      "[''10.0.1.1:8080'' \<mapsto> ''192.168.0.1:80'']"] h1 h2 h3
  show ?thesis
    by simp
qed

text \<open>
  C10. Tokens with leading zeros pass validation, so \<^verbatim>\<open>save\<close> of
  \<open>010.0.0.1:0080,1.2.3.4:80\<close> returns OK and stores the key as written; keys are
  compared as text, so that rule never answers the query \<open>10.0.0.1:80\<close>: with the rule
  stored \<^verbatim>\<open>translate\<close> returns what it returns without it, NO_MATCH on a table holding
  nothing else.
\<close>

theorem leading_zeros_are_distinct_keys:
  "is_ip ''010.0.0.1'' = Inr True \<and> is_port ''0080'' = Inr True \<and>
   save tbl ''010.0.0.1:0080,1.2.3.4:80'' = Inr (OK, tbl(''010.0.0.1:0080'' \<mapsto> ''1.2.3.4:80'')) \<and>
   translate (tbl(''010.0.0.1:0080'' \<mapsto> ''1.2.3.4:80'')) ''10.0.0.1:80'' v =
     translate tbl ''10.0.0.1:80'' v \<and>
   translate [''010.0.0.1:0080'' \<mapsto> ''1.2.3.4:80''] ''10.0.0.1:80'' v = Inr (NO_MATCH, v)"
  by (simp add: run_code split: option.splits)

end
